theory Spec2Isabelle
  imports Complex_Main "HOL-Library.Multiset"
begin

section \<open>Python values used by the game logic\<close>

text \<open>
  The engine of \<^verbatim>\<open>src/app.py\<close> is the class \<^verbatim>\<open>OriginalGameLogic\<close> and the handler of the
  predict button. The guess \<^verbatim>\<open>user_choice\<close> is dynamically typed: the widgets deliver an
  integer (number input), a string (text input) or \<^verbatim>\<open>None\<close>. Strings are lists of
  characters with code points below 256. Integers are unbounded. Exceptions are values.
\<close>

datatype pyval = PInt int | PStr string | PNone

datatype exn = ValueError | TypeError

subsection \<open>\<^verbatim>\<open>str(n)\<close> for an integer\<close>

definition digit_char :: "nat \<Rightarrow> char" where
  "digit_char n = char_of (48 + n)"

fun str_nat :: "nat \<Rightarrow> string" where
  "str_nat n = (if n < 10 then [digit_char n] else str_nat (n div 10) @ [digit_char (n mod 10)])"

declare str_nat.simps [simp del]

definition str_int :: "int \<Rightarrow> string" where
  "str_int i = (if i < 0 then CHR ''-'' # str_nat (nat (- i)) else str_nat (nat i))"

fun py_str :: "pyval \<Rightarrow> string" where
  "py_str (PInt i) = str_int i"
| "py_str (PStr s) = s"
| "py_str PNone = ''None''"

subsection \<open>\<^verbatim>\<open>int(x)\<close>\<close>

text \<open>
  \<^verbatim>\<open>int(s)\<close> on a string strips surrounding whitespace, reads an optional sign and then
  decimal digits, where a single underscore may stand between two digits. Anything else
  raises \<^verbatim>\<open>ValueError\<close>. \<^verbatim>\<open>int(None)\<close> raises \<^verbatim>\<open>TypeError\<close>.
\<close>

definition is_digit :: "char \<Rightarrow> bool" where
  "is_digit c = (48 \<le> (of_char c :: nat) \<and> (of_char c :: nat) \<le> 57)"

definition digit_val :: "char \<Rightarrow> nat" where
  "digit_val c = of_char c - 48"

definition is_space :: "char \<Rightarrow> bool" where
  "is_space c = ((of_char c :: nat) \<in> {9, 10, 11, 12, 13, 32, 133, 160})"

definition strip :: "string \<Rightarrow> string" where
  "strip s = rev (dropWhile is_space (rev (dropWhile is_space s)))"

fun digits_value :: "nat \<Rightarrow> string \<Rightarrow> nat option" where
  "digits_value acc [] = Some acc"
| "digits_value acc [c] = (if is_digit c then Some (10 * acc + digit_val c) else None)"
| "digits_value acc (c # d # cs) =
     (if is_digit c then digits_value (10 * acc + digit_val c) (d # cs)
      else if c = CHR ''_'' \<and> is_digit d then digits_value acc (d # cs)
      else None)"

definition int_of_str :: "string \<Rightarrow> exn + int" where
  "int_of_str s =
     (let t = strip s;
          neg = (case t of [] \<Rightarrow> False | c # r \<Rightarrow> c = CHR ''-'');
          body = (case t of [] \<Rightarrow> [] | c # r \<Rightarrow> if c = CHR ''-'' \<or> c = CHR ''+'' then r else t)
      in case body of
           [] \<Rightarrow> Inl ValueError
         | c # r \<Rightarrow>
             if \<not> is_digit c then Inl ValueError
             else (case digits_value 0 body of
                     None \<Rightarrow> Inl ValueError
                   | Some n \<Rightarrow> Inr (if neg then - int n else int n)))"

fun py_int :: "pyval \<Rightarrow> exn + int" where
  "py_int (PInt i) = Inr i"
| "py_int (PStr s) = int_of_str s"
| "py_int PNone = Inl TypeError"

subsection \<open>\<^verbatim>\<open>str.zfill\<close>, \<^verbatim>\<open>sorted\<close> and \<^verbatim>\<open>Counter\<close>\<close>

text \<open>
  \<^verbatim>\<open>s.zfill(width)\<close> returns \<^verbatim>\<open>s\<close> when it is long enough; otherwise it inserts zeros on
  the left, after a leading sign if there is one.
\<close>

definition zfill :: "nat \<Rightarrow> string \<Rightarrow> string" where
  "zfill width s =
     (if width \<le> length s then s
      else (case s of
              [] \<Rightarrow> replicate width CHR ''0''
            | c # r \<Rightarrow>
                if c = CHR ''+'' \<or> c = CHR ''-''
                then c # replicate (width - length s) CHR ''0'' @ r
                else replicate (width - length s) CHR ''0'' @ s))"

text \<open>\<^verbatim>\<open>[int(d) for d in s]\<close>: the first character that does not convert raises.\<close>

fun int_digits :: "string \<Rightarrow> exn + int list" where
  "int_digits [] = Inr []"
| "int_digits (c # cs) =
     (case int_of_str [c] of
        Inl e \<Rightarrow> Inl e
      | Inr v \<Rightarrow> (case int_digits cs of Inl e \<Rightarrow> Inl e | Inr vs \<Rightarrow> Inr (v # vs)))"

text \<open>
  \<^verbatim>\<open>Counter(xs)\<close> is a dictionary from the elements to their number of occurrences, in
  order of first occurrence: each element either bumps its entry or appends a new one.
\<close>

fun counter_add :: "int \<Rightarrow> (int \<times> nat) list \<Rightarrow> (int \<times> nat) list" where
  "counter_add x [] = [(x, 1)]"
| "counter_add x ((k, n) # kvs) =
     (if k = x then (k, n + 1) # kvs else (k, n) # counter_add x kvs)"

definition Counter :: "int list \<Rightarrow> (int \<times> nat) list" where
  "Counter xs = foldl (\<lambda>c x. counter_add x c) [] xs"

definition counter_values :: "(int \<times> nat) list \<Rightarrow> nat list" where
  "counter_values c = map snd c"

section \<open>\<^verbatim>\<open>OriginalGameLogic\<close>\<close>

definition PAYOUTS :: "(string \<times> real) list" where
  "PAYOUTS = [(''Royal Single'', 10), (''Golden Jodi'', 90), (''Triple Crown'', 150),
              (''Double Fortune'', 300), (''Royal Flush'', 500)]"

definition get_payout_multiplier :: "string \<Rightarrow> real" where
  "get_payout_multiplier internal_game_type =
     (case map_of PAYOUTS internal_game_type of None \<Rightarrow> 0 | Some m \<Rightarrow> m)"

definition STREAK_BONUSES :: "(int \<times> real) list" where
  "STREAK_BONUSES = [(3, 10 / 100), (5, 20 / 100), (10, 50 / 100)]"

definition JACKPOT_CONTRIBUTION_RATE :: real where
  "JACKPOT_CONTRIBUTION_RATE = 1 / 100"

definition JACKPOT_WIN_CHANCE_ON_FLUSH :: real where
  "JACKPOT_WIN_CHANCE_ON_FLUSH = 5 / 100"

text \<open>
  \<^verbatim>\<open>generate_draw\<close> draws two lists of three random digits and reduces each to its sum
  modulo 10. The random digits are the arguments here.
\<close>

definition generate_draw :: "int list \<Rightarrow> int list \<Rightarrow> int list \<times> int \<times> int list \<times> int" where
  "generate_draw draw1_digits draw2_digits =
     (draw1_digits, sum_list draw1_digits mod 10, draw2_digits, sum_list draw2_digits mod 10)"

text \<open>
  The body of \<^verbatim>\<open>check_win\<close> inside its \<^verbatim>\<open>try\<close>: \<open>Inl\<close> is a raised exception.
\<close>

definition check_win_body ::
  "string \<Rightarrow> pyval \<Rightarrow> int list \<Rightarrow> int \<Rightarrow> int list \<Rightarrow> int \<Rightarrow> exn + bool" where
  "check_win_body internal_game_type user_choice draw1_digits sum1 draw2_digits sum2 =
     (if internal_game_type = ''Royal Single'' then
        (case py_int user_choice of
           Inl e \<Rightarrow> Inl e
         | Inr user_num \<Rightarrow> Inr (user_num = sum1 \<or> user_num = sum2))
      else if internal_game_type = ''Golden Jodi'' then
        (let user_jodi_str = zfill 2 (py_str user_choice);
             actual_jodi_str = str_int sum1 @ str_int sum2
         in Inr (user_jodi_str = actual_jodi_str))
      else if internal_game_type \<in> set [''Triple Crown'', ''Double Fortune'', ''Royal Flush''] then
        (let user_digits_str = zfill 3 (py_str user_choice)
         in case int_digits user_digits_str of
              Inl e \<Rightarrow> Inl e
            | Inr ds \<Rightarrow>
               (let user_digits_list_sorted = sort ds;
                    match1 = (user_digits_list_sorted = sort draw1_digits);
                    match2 = (user_digits_list_sorted = sort draw2_digits);
                    user_counts = Counter user_digits_list_sorted;
                    draw1_counts = Counter draw1_digits;
                    draw2_counts = Counter draw2_digits;
                    (is_user_valid, is_draw1_pattern_match, is_draw2_pattern_match) =
                      (if internal_game_type = ''Triple Crown'' then
                         (length user_counts = 3, length draw1_counts = 3, length draw2_counts = 3)
                       else if internal_game_type = ''Double Fortune'' then
                         (length user_counts = 2 \<and> 2 \<in> set (counter_values user_counts),
                          length draw1_counts = 2 \<and> 2 \<in> set (counter_values draw1_counts),
                          length draw2_counts = 2 \<and> 2 \<in> set (counter_values draw2_counts))
                       else if internal_game_type = ''Royal Flush'' then
                         (length user_counts = 1, length draw1_counts = 1, length draw2_counts = 1)
                       else (False, False, False))
                in Inr (is_user_valid \<and>
                        ((match1 \<and> is_draw1_pattern_match) \<or> (match2 \<and> is_draw2_pattern_match)))))
      else Inr False)"

text \<open>\<^verbatim>\<open>check_win\<close>: the \<^verbatim>\<open>except Exception\<close> clause reports the error and returns False.\<close>

definition check_win ::
  "string \<Rightarrow> pyval \<Rightarrow> int list \<Rightarrow> int \<Rightarrow> int list \<Rightarrow> int \<Rightarrow> bool" where
  "check_win internal_game_type user_choice draw1_digits sum1 draw2_digits sum2 =
     (case check_win_body internal_game_type user_choice draw1_digits sum1 draw2_digits sum2 of
        Inl e \<Rightarrow> False
      | Inr b \<Rightarrow> b)"

text \<open>
  \<^verbatim>\<open>get_streak_bonus_multiplier\<close>: the levels are visited from the highest threshold down
  and the first one reached gives the rate.
\<close>

fun first_level :: "int \<Rightarrow> (int \<times> real) list \<Rightarrow> real" where
  "first_level streak_count [] = 0"
| "first_level streak_count ((streak, rate) # levels) =
     (if streak_count \<ge> streak then rate else first_level streak_count levels)"

definition get_streak_bonus_multiplier :: "int \<Rightarrow> real" where
  "get_streak_bonus_multiplier streak_count =
     first_level streak_count (rev (sort_key fst STREAK_BONUSES))"

definition calculate_jackpot :: "real \<Rightarrow> real \<Rightarrow> real" where
  "calculate_jackpot current_jackpot bet_amount =
     current_jackpot + bet_amount * JACKPOT_CONTRIBUTION_RATE"

section \<open>Session state and the predict handler\<close>

text \<open>
  The session variables \<^verbatim>\<open>st.session_state.v4_*\<close>. Token amounts are Python floats; they
  are real numbers here, so rounding is not part of the model. The fields of a history
  entry carry the prefix \<open>h_\<close>, the locals of a round that the handler reports the
  prefix \<open>o_\<close>.
\<close>

record history_entry =
  h_timestamp :: string
  h_game_type :: string
  h_user_choice :: pyval
  h_draw1_result :: string
  h_draw2_result :: string
  h_jodi :: string
  h_bet_amount :: real
  h_won :: bool
  h_payout :: real
  h_balance_after :: real

record session =
  v4_balance :: real
  v4_history :: "history_entry list"
  v4_last_signals :: "string list"
  v4_jackpot :: real
  v4_streak :: int
  v4_quick_pick_holder :: "real option"

text \<open>
  The initialisation at the top of the script; the reset button deletes the six keys and
  reruns the script, which initialises them again.
\<close>

definition initial_session :: session where
  "initial_session =
     \<lparr>v4_balance = 10000, v4_history = [], v4_last_signals = [], v4_jackpot = 5000,
      v4_streak = 0, v4_quick_pick_holder = None\<rparr>"

definition reset_simulation :: "session \<Rightarrow> session" where
  "reset_simulation s = initial_session"

text \<open>\<^verbatim>\<open>deque(maxlen=10).append\<close>: a full deque drops its oldest element.\<close>

definition deque_append :: "string list \<Rightarrow> string \<Rightarrow> string list" where
  "deque_append q x = (if length q \<ge> 10 then tl q @ [x] else q @ [x])"

datatype validation_error = InvalidPrediction | BetOutOfRange | InsufficientBalance

record round_outcome =
  o_won :: bool
  o_winnings :: real
  o_jackpot_win :: bool
  o_jackpot_win_amount :: real
  o_bonus :: real

text \<open>
  The branch \<^verbatim>\<open>if won:\<close> of the handler. \<open>roll\<close> is the value of \<^verbatim>\<open>random.random()\<close>,
  which is read only for a Royal Flush. The local \<^verbatim>\<open>bonus\<close> exists only when a streak
  bonus is paid; the outcome reports 0 otherwise.
\<close>

definition settle_win :: "string \<Rightarrow> real \<Rightarrow> real \<Rightarrow> session \<Rightarrow> round_outcome \<times> session" where
  "settle_win internal_game_type bet_amount roll s =
     (let winnings = bet_amount * get_payout_multiplier internal_game_type;
          s1 = s\<lparr>v4_balance := v4_balance s + winnings, v4_streak := v4_streak s + 1\<rparr>;
          jackpot_win = (internal_game_type = ''Royal Flush'' \<and> roll < JACKPOT_WIN_CHANCE_ON_FLUSH);
          jackpot_win_amount = (if jackpot_win then v4_jackpot s1 else 0);
          s2 = (if jackpot_win
                then s1\<lparr>v4_balance := v4_balance s1 + jackpot_win_amount, v4_jackpot := 5000\<rparr>
                else s1);
          streak_bonus_mult = get_streak_bonus_multiplier (v4_streak s2);
          bonus = (if \<not> jackpot_win \<and> streak_bonus_mult > 0 then bet_amount * streak_bonus_mult else 0);
          s3 = (if \<not> jackpot_win \<and> streak_bonus_mult > 0
                then s2\<lparr>v4_balance := v4_balance s2 + bonus\<rparr>
                else s2)
      in (\<lparr>o_won = True, o_winnings = winnings, o_jackpot_win = jackpot_win,
           o_jackpot_win_amount = jackpot_win_amount, o_bonus = bonus\<rparr>, s3))"

text \<open>The branch \<^verbatim>\<open>else:\<close> of the handler.\<close>

definition settle_loss :: "session \<Rightarrow> round_outcome \<times> session" where
  "settle_loss s =
     (\<lparr>o_won = False, o_winnings = 0, o_jackpot_win = False, o_jackpot_win_amount = 0,
       o_bonus = 0\<rparr>, s\<lparr>v4_streak := 0\<rparr>)"

text \<open>
  The body of the handler after validation. The two lists of random digits, the random
  roll and the clock reading \<open>now\<close> are arguments.
\<close>

definition resolve_round ::
  "string \<Rightarrow> pyval \<Rightarrow> real \<Rightarrow> int list \<Rightarrow> int list \<Rightarrow> real \<Rightarrow> string \<Rightarrow> session
     \<Rightarrow> round_outcome \<times> session" where
  "resolve_round internal_game_type user_choice_input bet_amount digits1 digits2 roll now s =
     (let s1 = s\<lparr>v4_balance := v4_balance s - bet_amount\<rparr>;
          s2 = s1\<lparr>v4_jackpot := calculate_jackpot (v4_jackpot s1) bet_amount\<rparr>;
          (draw1_digits, sum1, draw2_digits, sum2) = generate_draw digits1 digits2;
          jodi_result = str_int sum1 @ str_int sum2;
          s3 = s2\<lparr>v4_last_signals := deque_append (v4_last_signals s2) jodi_result\<rparr>;
          won = check_win internal_game_type user_choice_input draw1_digits sum1 draw2_digits sum2;
          (out, s4) = (if won then settle_win internal_game_type bet_amount roll s3
                       else settle_loss s3);
          entry = \<lparr>h_timestamp = now, h_game_type = internal_game_type,
                   h_user_choice = user_choice_input,
                   h_draw1_result = concat (map str_int draw1_digits) @ ''*'' @ str_int sum1,
                   h_draw2_result = concat (map str_int draw2_digits) @ ''*'' @ str_int sum2,
                   h_jodi = jodi_result, h_bet_amount = bet_amount, h_won = won,
                   h_payout = o_winnings out + o_jackpot_win_amount out,
                   h_balance_after = v4_balance s4\<rparr>
      in (out, s4\<lparr>v4_history := v4_history s4 @ [entry]\<rparr>))"

text \<open>
  The handler of the predict button: input validation, then the round. A rejected bet
  returns the session as it was.
\<close>

definition predict ::
  "string \<Rightarrow> pyval option \<Rightarrow> real \<Rightarrow> int list \<Rightarrow> int list \<Rightarrow> real \<Rightarrow> string \<Rightarrow> session
     \<Rightarrow> (validation_error + round_outcome) \<times> session" where
  "predict internal_game_type user_choice_input bet_amount digits1 digits2 roll now s =
     (case user_choice_input of
        None \<Rightarrow> (Inl InvalidPrediction, s)
      | Some choice \<Rightarrow>
          if \<not> (10 \<le> bet_amount \<and> bet_amount \<le> 5000) then (Inl BetOutOfRange, s)
          else if bet_amount > v4_balance s then (Inl InsufficientBalance, s)
          else (case resolve_round internal_game_type choice bet_amount digits1 digits2 roll now s of
                  (out, s') \<Rightarrow> (Inr out, s')))"

text \<open>A sequence of clicks on the predict button, each with its own inputs.\<close>

record bet_request =
  r_game_type :: string
  r_choice :: "pyval option"
  r_bet :: real
  r_digits1 :: "int list"
  r_digits2 :: "int list"
  r_roll :: real
  r_now :: string

fun predict_all ::
  "bet_request list \<Rightarrow> session \<Rightarrow> (validation_error + round_outcome) list \<times> session" where
  "predict_all [] s = ([], s)"
| "predict_all (r # rs) s =
     (case predict (r_game_type r) (r_choice r) (r_bet r) (r_digits1 r) (r_digits2 r)
             (r_roll r) (r_now r) s of
        (res, s') \<Rightarrow> (case predict_all rs s' of (results, s'') \<Rightarrow> (res # results, s'')))"

section \<open>Notions used in the statements\<close>

text \<open>The digits that a string of decimal digits denotes, in order.\<close>

definition digit_values :: "string \<Rightarrow> int list" where
  "digit_values s = map (\<lambda>c. int (digit_val c)) s"

text \<open>The count that a \<^verbatim>\<open>Counter\<close> holds for a key, 0 when the key is absent.\<close>

definition tally :: "(int \<times> nat) list \<Rightarrow> int \<Rightarrow> nat" where
  "tally c k = (case map_of c k of None \<Rightarrow> 0 | Some n \<Rightarrow> n)"

text \<open>
  The simplified variant of the pattern branch of \<^verbatim>\<open>check_win\<close> that the specification
  describes: it checks the shape of the guess only, and that the sorted guess equals a
  sorted feed. The shape of the matched feed is not looked at.
\<close>

definition check_win_simplified :: "string \<Rightarrow> pyval \<Rightarrow> int list \<Rightarrow> int list \<Rightarrow> bool" where
  "check_win_simplified internal_game_type user_choice draw1_digits draw2_digits =
     (case int_digits (zfill 3 (py_str user_choice)) of
        Inl e \<Rightarrow> False
      | Inr ds \<Rightarrow>
          (let user_digits_list_sorted = sort ds;
               user_counts = Counter user_digits_list_sorted;
               is_user_valid =
                 (if internal_game_type = ''Triple Crown'' then length user_counts = 3
                  else if internal_game_type = ''Double Fortune'' then
                    length user_counts = 2 \<and> 2 \<in> set (counter_values user_counts)
                  else if internal_game_type = ''Royal Flush'' then length user_counts = 1
                  else False)
           in is_user_valid \<and>
              (user_digits_list_sorted = sort draw1_digits \<or>
               user_digits_list_sorted = sort draw2_digits)))"

section \<open>Facts about the Python primitives\<close>

subsection \<open>\<^verbatim>\<open>Counter\<close>\<close>


lemma counter_add_keys: "set (map fst (counter_add x c)) = insert x (set (map fst c))"
  by (induction x c rule: counter_add.induct) auto

lemma counter_add_keys_image: "fst ` set (counter_add x c) = insert x (fst ` set c)"
  using counter_add_keys [of x c] by simp

lemma counter_add_distinct: "distinct (map fst c) \<Longrightarrow> distinct (map fst (counter_add x c))"
  by (induction x c rule: counter_add.induct) (auto simp: counter_add_keys_image)

lemma counter_add_map_of:
  "map_of (counter_add x c) k =
     (if k = x then Some (case map_of c x of None \<Rightarrow> 1 | Some n \<Rightarrow> n + 1) else map_of c k)"
  by (induction x c rule: counter_add.induct) auto

lemma fold_counter_keys:
  "set (map fst (foldl (\<lambda>c x. counter_add x c) c xs)) = set (map fst c) \<union> set xs"
  by (induction xs arbitrary: c) (auto simp: counter_add_keys simp del: set_map)

lemma fold_counter_distinct:
  "distinct (map fst c) \<Longrightarrow> distinct (map fst (foldl (\<lambda>c x. counter_add x c) c xs))"
  by (induction xs arbitrary: c) (auto simp: counter_add_distinct)

lemma fold_counter_tally:
  "tally (foldl (\<lambda>c x. counter_add x c) c xs) k = tally c k + count_list xs k"
  by (induction xs arbitrary: c) (auto simp: tally_def counter_add_map_of split: option.splits)

lemma Counter_keys: "set (map fst (Counter xs)) = set xs"
  by (simp add: Counter_def fold_counter_keys del: set_map)

lemma Counter_distinct: "distinct (map fst (Counter xs))"
  by (simp add: Counter_def fold_counter_distinct)

lemma Counter_length: "length (Counter xs) = card (set xs)"
  using distinct_card [OF Counter_distinct, of xs] by (simp add: Counter_keys del: set_map)

lemma Counter_entry:
  "(k, n) \<in> set (Counter xs) \<longleftrightarrow> k \<in> set xs \<and> n = count_list xs k"
proof -
  have t: "tally (Counter xs) k = count_list xs k"
    using fold_counter_tally [of "[]" xs k] by (simp add: Counter_def tally_def)
  have d: "(k, n) \<in> set (Counter xs) \<longleftrightarrow> map_of (Counter xs) k = Some n"
    using Counter_distinct by (simp add: map_of_eq_Some_iff)
  show ?thesis
  proof (cases "k \<in> set xs")
    case True
    then have "k \<in> fst ` set (Counter xs)" using Counter_keys [of xs] by simp
    then obtain m where m: "map_of (Counter xs) k = Some m"
      by (metis domD dom_map_of_conv_image_fst)
    with t have "m = count_list xs k" by (simp add: tally_def)
    with m d True show ?thesis by auto
  next
    case False
    then have "k \<notin> fst ` set (Counter xs)" using Counter_keys [of xs] by simp
    then have "(k, n) \<notin> set (Counter xs)" by force
    with False show ?thesis by simp
  qed
qed

lemma Counter_values_has:
  "v \<in> set (counter_values (Counter xs)) \<longleftrightarrow> (\<exists>k\<in>set xs. count_list xs k = v)"
  unfolding counter_values_def using Counter_entry [of _ v xs] by force

subsection \<open>Conversions, \<^verbatim>\<open>zfill\<close> and \<^verbatim>\<open>sorted\<close>\<close>


lemma space_not_digit: "is_space c \<Longrightarrow> \<not> is_digit c"
  by (auto simp: is_space_def is_digit_def)

lemma sign_not_digit: "c = CHR ''-'' \<or> c = CHR ''+'' \<Longrightarrow> \<not> is_digit c"
  by (auto simp: is_digit_def)

lemma strip_single: "strip [c] = (if is_space c then [] else [c])"
  by (simp add: strip_def)

lemma int_of_str_single:
  "int_of_str [c] = (if is_digit c then Inr (int (digit_val c)) else Inl ValueError)"
proof (cases "is_digit c")
  case True
  then have "\<not> is_space c" "c \<noteq> CHR ''-''" "c \<noteq> CHR ''+''"
    using space_not_digit sign_not_digit by blast+
  with True show ?thesis by (simp add: int_of_str_def strip_single)
next
  case False
  then show ?thesis by (auto simp: int_of_str_def strip_single Let_def)
qed

lemma int_digits_eq:
  "int_digits s = (if \<forall>c\<in>set s. is_digit c then Inr (digit_values s) else Inl ValueError)"
  by (induction s) (auto simp: int_of_str_single digit_values_def)

lemma zfill_long: "width \<le> length s \<Longrightarrow> zfill width s = s"
  by (simp add: zfill_def)

lemma zfill_idem: "zfill width (zfill width s) = zfill width s"
  by (auto simp: zfill_def split: list.splits)

lemma zfill_plain:
  "s = [] \<or> (hd s \<noteq> CHR ''+'' \<and> hd s \<noteq> CHR ''-'') \<Longrightarrow>
   zfill width s = replicate (width - length s) CHR ''0'' @ s"
  by (cases s) (auto simp: zfill_def)

lemma sort_eq_count: "sort xs = sort ys \<Longrightarrow> count_list xs k = count_list ys k"
  by (metis count_mset mset_sort)

lemma sort_eq_set: "sort xs = sort ys \<Longrightarrow> set xs = set ys"
  by (metis set_sort)

lemma count_list_sort: "count_list (sort xs) k = count_list xs k"
  by (metis count_mset mset_sort)

subsection \<open>The pattern kinds, evaluated\<close>


lemma Counter_shape_sort:
  "length (Counter (sort xs)) = card (set xs)"
  "2 \<in> set (counter_values (Counter (sort xs))) \<longleftrightarrow> (\<exists>k\<in>set xs. count_list xs k = 2)"
  by (simp_all add: Counter_length Counter_values_has count_list_sort)

lemma triple_crown_eval:
  "check_win ''Triple Crown'' g d1 s1 d2 s2 =
     (case int_digits (zfill 3 (py_str g)) of
        Inl e \<Rightarrow> False
      | Inr ds \<Rightarrow> card (set ds) = 3 \<and>
          (sort ds = sort d1 \<and> card (set d1) = 3 \<or> sort ds = sort d2 \<and> card (set d2) = 3))"
  by (simp add: check_win_def check_win_body_def Let_def Counter_length Counter_shape_sort
           split: sum.splits)

lemma double_fortune_eval:
  "check_win ''Double Fortune'' g d1 s1 d2 s2 =
     (case int_digits (zfill 3 (py_str g)) of
        Inl e \<Rightarrow> False
      | Inr ds \<Rightarrow> (card (set ds) = 2 \<and> (\<exists>k\<in>set ds. count_list ds k = 2)) \<and>
          (sort ds = sort d1 \<and> card (set d1) = 2 \<and> (\<exists>k\<in>set d1. count_list d1 k = 2) \<or>
           sort ds = sort d2 \<and> card (set d2) = 2 \<and> (\<exists>k\<in>set d2. count_list d2 k = 2)))"
  by (simp add: check_win_def check_win_body_def Let_def Counter_length Counter_shape_sort
                Counter_values_has count_list_sort
           split: sum.splits)

lemma royal_flush_eval:
  "check_win ''Royal Flush'' g d1 s1 d2 s2 =
     (case int_digits (zfill 3 (py_str g)) of
        Inl e \<Rightarrow> False
      | Inr ds \<Rightarrow> card (set ds) = 1 \<and>
          (sort ds = sort d1 \<and> card (set d1) = 1 \<or> sort ds = sort d2 \<and> card (set d2) = 1))"
  by (simp add: check_win_def check_win_body_def Let_def Counter_length Counter_shape_sort
           split: sum.splits)

lemma simplified_eval:
  "check_win_simplified ''Triple Crown'' g d1 d2 =
     (case int_digits (zfill 3 (py_str g)) of
        Inl e \<Rightarrow> False
      | Inr ds \<Rightarrow> card (set ds) = 3 \<and> (sort ds = sort d1 \<or> sort ds = sort d2))"
  "check_win_simplified ''Double Fortune'' g d1 d2 =
     (case int_digits (zfill 3 (py_str g)) of
        Inl e \<Rightarrow> False
      | Inr ds \<Rightarrow> (card (set ds) = 2 \<and> (\<exists>k\<in>set ds. count_list ds k = 2)) \<and>
          (sort ds = sort d1 \<or> sort ds = sort d2))"
  "check_win_simplified ''Royal Flush'' g d1 d2 =
     (case int_digits (zfill 3 (py_str g)) of
        Inl e \<Rightarrow> False
      | Inr ds \<Rightarrow> card (set ds) = 1 \<and> (sort ds = sort d1 \<or> sort ds = sort d2))"
  by (simp_all add: check_win_simplified_def Let_def Counter_shape_sort split: sum.splits)

lemma sort_eq_shape:
  assumes "sort ds = sort d"
  shows "card (set d) = card (set ds)"
    and "(\<exists>k\<in>set d. count_list d k = 2) \<longleftrightarrow> (\<exists>k\<in>set ds. count_list ds k = 2)"
  using sort_eq_set [OF assms] sort_eq_count [OF assms] by simp_all

subsection \<open>\<^verbatim>\<open>str\<close> of an integer and the combined signal\<close>

lemma str_nat_length: "length (str_nat n) = 1 \<longleftrightarrow> n < 10"
proof (induction n rule: str_nat.induct)
  case (1 n)
  show ?case
  proof (cases "n < 10")
    case True
    then show ?thesis by (simp add: str_nat.simps [of n])
  next
    case False
    then have "length (str_nat n) = length (str_nat (n div 10)) + 1"
      by (simp add: str_nat.simps [of n])
    moreover have "str_nat (n div 10) \<noteq> []"
      by (subst str_nat.simps) simp
    ultimately show ?thesis using False by (cases "str_nat (n div 10)") auto
  qed
qed

lemma str_nat_nonempty: "str_nat n \<noteq> []"
  by (subst str_nat.simps) simp

lemma str_int_nonempty: "str_int i \<noteq> []"
  by (simp add: str_int_def str_nat_nonempty)

lemma str_int_length: "length (str_int i) = 1 \<longleftrightarrow> 0 \<le> i \<and> i < 10"
  using str_nat_length [of "nat i"] str_nat_nonempty [of "nat (- i)"]
  by (auto simp: str_int_def)

lemma str_int_digit:
  assumes "0 \<le> i" and "i < 10"
  shows "str_int i = [digit_char (nat i)]"
proof -
  from assms have "nat i < 10" by simp
  then have "str_nat (nat i) = [digit_char (nat i)]" by (simp add: str_nat.simps [of "nat i"])
  with assms show ?thesis by (simp add: str_int_def)
qed

lemma digit_char_code: "n < 10 \<Longrightarrow> (of_char (digit_char n) :: nat) = 48 + n"
  by (simp add: digit_char_def)

lemma digit_char_eq:
  assumes "n < 10" and "m < 10"
  shows "digit_char n = digit_char m \<longleftrightarrow> n = m"
proof
  assume "digit_char n = digit_char m"
  then have "(of_char (digit_char n) :: nat) = of_char (digit_char m)" by (rule arg_cong)
  then have "48 + n = 48 + m"
    unfolding digit_char_code [OF assms(1)] digit_char_code [OF assms(2)] .
  then show "n = m" by linarith
next
  assume "n = m"
  then show "digit_char n = digit_char m" by (rule arg_cong)
qed

lemma digit_char_0: "digit_char 0 = CHR ''0''"
  unfolding digit_char_def by code_simp

lemma digit_char_7: "digit_char 7 = CHR ''7''"
  unfolding digit_char_def by code_simp

lemma two_chars_split:
  assumes "xs @ ys = [a, b]" and "xs \<noteq> []" and "ys \<noteq> []"
  shows "xs = [a] \<and> ys = [b]"
proof -
  from assms(2) obtain x xs' where xs: "xs = x # xs'" by (cases xs) auto
  with assms(1) have x: "x = a" and r: "xs' @ ys = [b]" by simp_all
  have "xs' = []"
  proof (cases xs')
    case Nil
    then show ?thesis .
  next
    case (Cons y zs)
    with r have "zs @ ys = []" by simp
    with assms(3) show ?thesis by simp
  qed
  with xs x r show ?thesis by simp
qed

lemma jodi_07: "str_int s1 @ str_int s2 = ''07'' \<longleftrightarrow> s1 = 0 \<and> s2 = 7"
proof
  assume h: "str_int s1 @ str_int s2 = ''07''"
  from two_chars_split [OF h str_int_nonempty str_int_nonempty]
  have a: "str_int s1 = [CHR ''0'']" and b: "str_int s2 = [CHR ''7'']" by simp_all
  from a have r1: "0 \<le> s1 \<and> s1 < 10" using str_int_length [of s1] by simp
  from b have r2: "0 \<le> s2 \<and> s2 < 10" using str_int_length [of s2] by simp
  from a r1 have "digit_char (nat s1) = digit_char 0"
    by (simp add: str_int_digit digit_char_0)
  moreover from r1 have "nat s1 < 10" by linarith
  ultimately have "nat s1 = 0" using digit_char_eq [of "nat s1" 0] by simp
  moreover from b r2 have "digit_char (nat s2) = digit_char 7"
    by (simp add: str_int_digit digit_char_7)
  moreover from r2 have "nat s2 < 10" by linarith
  ultimately have "nat s1 = 0" and "nat s2 = 7" using digit_char_eq [of "nat s2" 7] by simp_all
  then show "s1 = 0 \<and> s2 = 7" using r1 r2 by simp
next
  assume "s1 = 0 \<and> s2 = 7"
  then show "str_int s1 @ str_int s2 = ''07''"
    by (simp add: str_int_digit digit_char_0 digit_char_7)
qed

lemma golden_jodi_eval:
  "check_win ''Golden Jodi'' g d1 s1 d2 s2 \<longleftrightarrow> zfill 2 (py_str g) = str_int s1 @ str_int s2"
  by (simp add: check_win_def check_win_body_def Let_def)

lemma str_int_12: "str_int 12 = ''12''"
  by code_simp

lemma pattern_zfill:
  "check_win ''Triple Crown'' g d1 s1 d2 s2 =
     check_win ''Triple Crown'' (PStr (zfill 3 (py_str g))) d1 s1 d2 s2"
  "check_win ''Double Fortune'' g d1 s1 d2 s2 =
     check_win ''Double Fortune'' (PStr (zfill 3 (py_str g))) d1 s1 d2 s2"
  "check_win ''Royal Flush'' g d1 s1 d2 s2 =
     check_win ''Royal Flush'' (PStr (zfill 3 (py_str g))) d1 s1 d2 s2"
  by (simp_all add: triple_crown_eval double_fortune_eval royal_flush_eval zfill_idem)

section \<open>Facts about the predict handler\<close>

lemma streak_levels: "rev (sort_key fst STREAK_BONUSES) = [(10, 50 / 100), (5, 20 / 100), (3, 10 / 100)]"
  by (simp add: STREAK_BONUSES_def)

lemma get_streak_bonus_multiplier_eq:
  "get_streak_bonus_multiplier n =
     (if 10 \<le> n then 50 / 100 else if 5 \<le> n then 20 / 100 else if 3 \<le> n then 10 / 100 else 0)"
  by (simp add: get_streak_bonus_multiplier_def streak_levels)

lemma get_streak_bonus_multiplier_nonneg: "0 \<le> get_streak_bonus_multiplier n"
  by (simp add: get_streak_bonus_multiplier_eq)

lemma payout_royal_flush: "get_payout_multiplier ''Royal Flush'' = 500"
  by (simp add: get_payout_multiplier_def PAYOUTS_def)

lemma settle_win_fields:
  "o_won (fst (settle_win k bet roll s)) = True"
  "o_winnings (fst (settle_win k bet roll s)) = bet * get_payout_multiplier k"
  "o_jackpot_win (fst (settle_win k bet roll s)) = (k = ''Royal Flush'' \<and> roll < 5 / 100)"
  "o_jackpot_win_amount (fst (settle_win k bet roll s)) =
     (if k = ''Royal Flush'' \<and> roll < 5 / 100 then v4_jackpot s else 0)"
  "o_bonus (fst (settle_win k bet roll s)) =
     (if k = ''Royal Flush'' \<and> roll < 5 / 100 then 0
      else bet * get_streak_bonus_multiplier (v4_streak s + 1))"
  "v4_jackpot (snd (settle_win k bet roll s)) =
     (if k = ''Royal Flush'' \<and> roll < 5 / 100 then 5000 else v4_jackpot s)"
  "v4_streak (snd (settle_win k bet roll s)) = v4_streak s + 1"
  "v4_balance (snd (settle_win k bet roll s)) =
     v4_balance s + bet * get_payout_multiplier k +
     (if k = ''Royal Flush'' \<and> roll < 5 / 100 then v4_jackpot s
      else bet * get_streak_bonus_multiplier (v4_streak s + 1))"
  "v4_history (snd (settle_win k bet roll s)) = v4_history s"
  "v4_last_signals (snd (settle_win k bet roll s)) = v4_last_signals s"
  using get_streak_bonus_multiplier_nonneg [of "v4_streak s + 1"]
  by (auto simp: settle_win_def Let_def JACKPOT_WIN_CHANCE_ON_FLUSH_def)

lemma resolve_round_split:
  "resolve_round k c bet d1 d2 roll now s =
     (let s3 = s\<lparr>v4_balance := v4_balance s - bet,
                  v4_jackpot := calculate_jackpot (v4_jackpot s) bet,
                  v4_last_signals := deque_append (v4_last_signals s)
                     (str_int (sum_list d1 mod 10) @ str_int (sum_list d2 mod 10))\<rparr>;
          won = check_win k c d1 (sum_list d1 mod 10) d2 (sum_list d2 mod 10);
          r = (if won then settle_win k bet roll s3 else settle_loss s3)
      in (fst r,
          (snd r)\<lparr>v4_history := v4_history (snd r) @
             [\<lparr>h_timestamp = now, h_game_type = k, h_user_choice = c,
               h_draw1_result = concat (map str_int d1) @ ''*'' @ str_int (sum_list d1 mod 10),
               h_draw2_result = concat (map str_int d2) @ ''*'' @ str_int (sum_list d2 mod 10),
               h_jodi = str_int (sum_list d1 mod 10) @ str_int (sum_list d2 mod 10),
               h_bet_amount = bet, h_won = won,
               h_payout = o_winnings (fst r) + o_jackpot_win_amount (fst r),
               h_balance_after = v4_balance (snd r)\<rparr>]\<rparr>))"
  by (simp add: resolve_round_def generate_draw_def Let_def split_beta)

lemma resolve_round_fields:
  fixes k c bet d1 d2 roll now s
  defines "W \<equiv> check_win k c d1 (sum_list d1 mod 10) d2 (sum_list d2 mod 10)"
    and "J \<equiv> (check_win k c d1 (sum_list d1 mod 10) d2 (sum_list d2 mod 10) \<and>
               k = ''Royal Flush'' \<and> roll < 5 / 100)"
    and "out \<equiv> fst (resolve_round k c bet d1 d2 roll now s)"
    and "s' \<equiv> snd (resolve_round k c bet d1 d2 roll now s)"
  shows "o_won out = W"
    and "o_jackpot_win out = J"
    and "o_winnings out = (if W then bet * get_payout_multiplier k else 0)"
    and "o_jackpot_win_amount out = (if J then v4_jackpot s + bet * (1 / 100) else 0)"
    and "o_bonus out = (if W \<and> \<not> J then bet * get_streak_bonus_multiplier (v4_streak s + 1) else 0)"
    and "v4_jackpot s' = (if J then 5000 else v4_jackpot s + bet * (1 / 100))"
    and "v4_streak s' = (if W then v4_streak s + 1 else 0)"
    and "v4_balance s' = v4_balance s - bet + o_winnings out + o_jackpot_win_amount out + o_bonus out"
  unfolding W_def J_def out_def s'_def resolve_round_split
  by (auto simp: Let_def settle_win_fields settle_loss_def calculate_jackpot_def
        JACKPOT_CONTRIBUTION_RATE_def)

lemma predict_valid:
  assumes "10 \<le> bet" and "bet \<le> 5000" and "bet \<le> v4_balance s"
  shows "predict k (Some c) bet d1 d2 roll now s =
           (Inr (fst (resolve_round k c bet d1 d2 roll now s)),
            snd (resolve_round k c bet d1 d2 roll now s))"
  using assms by (simp add: predict_def split_beta)

lemma predict_rejects:
  assumes "bet < 10 \<or> 5000 < bet \<or> v4_balance s < bet"
  shows "predict k uc bet d1 d2 roll now s =
           (Inl (case uc of None \<Rightarrow> InvalidPrediction
                 | Some c \<Rightarrow> if bet < 10 \<or> 5000 < bet then BetOutOfRange
                              else InsufficientBalance), s)"
  using assms by (cases uc) (auto simp: predict_def)

lemma predict_resolved:
  assumes "predict k uc bet d1 d2 roll now s = (Inr out, s')"
  shows "\<exists>c. uc = Some c \<and> 10 \<le> bet \<and> bet \<le> 5000 \<and> bet \<le> v4_balance s \<and>
             out = fst (resolve_round k c bet d1 d2 roll now s) \<and>
             s' = snd (resolve_round k c bet d1 d2 roll now s)"
  using assms by (cases uc) (auto simp: predict_def split_beta split: if_splits)

lemma predict_all_rejects:
  assumes "\<forall>r\<in>set rs. r_bet r < 10 \<or> 5000 < r_bet r \<or> v4_balance s < r_bet r"
  shows "snd (predict_all rs s) = s \<and> list_all isl (fst (predict_all rs s))"
  using assms
proof (induction rs)
  case Nil
  then show ?case by simp
next
  case (Cons r rs)
  then have bad: "r_bet r < 10 \<or> 5000 < r_bet r \<or> v4_balance s < r_bet r" by simp
  from Cons have ih: "snd (predict_all rs s) = s \<and> list_all isl (fst (predict_all rs s))" by simp
  from predict_rejects [OF bad] ih show ?case by (simp add: split_beta)
qed

lemma flush_777:
  "check_win ''Royal Flush'' (PStr ''777'') [7, 7, 7] (sum_list [7, 7, 7] mod 10) [1, 2, 3]
     (sum_list [1, 2, 3] mod 10)"
proof -
  have "\<forall>c\<in>set ''777''. is_digit c" by (simp add: is_digit_def)
  then have "int_digits ''777'' = Inr (digit_values ''777'')" by (simp add: int_digits_eq)
  moreover have "digit_values ''777'' = [7, 7, 7]" by (simp add: digit_values_def digit_val_def)
  ultimately show ?thesis by (simp add: royal_flush_eval zfill_def)
qed

section \<open>Guesses that the conversions reject\<close>

lemma dropWhile_keeps: "x \<in> set xs \<Longrightarrow> \<not> P x \<Longrightarrow> x \<in> set (dropWhile P xs)"
  by (induction xs) auto

lemma strip_keeps: "c \<in> set s \<Longrightarrow> \<not> is_space c \<Longrightarrow> c \<in> set (strip s)"
  unfolding strip_def using dropWhile_keeps [of c _ is_space] by simp

lemma digits_value_rejects:
  "c \<in> set body \<Longrightarrow> \<not> is_digit c \<Longrightarrow> c \<noteq> CHR ''_'' \<Longrightarrow> digits_value acc body = None"
  by (induction acc body rule: digits_value.induct) auto

lemma int_of_str_rejects:
  assumes "c \<in> set s" and "\<not> is_digit c" and "\<not> is_space c"
    and "c \<noteq> CHR ''+''" and "c \<noteq> CHR ''-''" and "c \<noteq> CHR ''_''"
  shows "int_of_str s = Inl ValueError"
proof -
  define t where "t = strip s"
  define body where
    "body = (case t of [] \<Rightarrow> [] | c # r \<Rightarrow> if c = CHR ''-'' \<or> c = CHR ''+'' then r else t)"
  from assms(1,3) have ct: "c \<in> set t" unfolding t_def by (rule strip_keeps)
  with assms(4,5) have cb: "c \<in> set body"
    unfolding body_def by (cases t) auto
  from digits_value_rejects [OF cb assms(2) assms(6)]
  have dv: "digits_value 0 body = None" .
  have "int_of_str s =
          (case body of [] \<Rightarrow> Inl ValueError
           | c # r \<Rightarrow> if \<not> is_digit c then Inl ValueError
                      else (case digits_value 0 body of None \<Rightarrow> Inl ValueError
                            | Some n \<Rightarrow> Inr (if (case t of [] \<Rightarrow> False | c # r \<Rightarrow> c = CHR ''-'')
                                             then - int n else int n)))"
    unfolding int_of_str_def t_def body_def Let_def ..
  with dv show ?thesis by (cases body) auto
qed

lemma digit_char_is_digit: "n < 10 \<Longrightarrow> is_digit (digit_char n)"
  using digit_char_code [of n] by (simp add: is_digit_def)

lemma str_nat_digits: "c \<in> set (str_nat n) \<Longrightarrow> is_digit c"
proof (induction n rule: str_nat.induct)
  case (1 n)
  show ?case
  proof (cases "n < 10")
    case True
    with "1.prems" show ?thesis by (simp add: str_nat.simps [of n] digit_char_is_digit)
  next
    case False
    with "1.prems" have "c \<in> set (str_nat (n div 10)) \<or> c = digit_char (n mod 10)"
      by (auto simp: str_nat.simps [of n])
    then show ?thesis
    proof
      assume "c \<in> set (str_nat (n div 10))"
      with "1.IH" False show ?thesis by simp
    next
      assume "c = digit_char (n mod 10)"
      then show ?thesis by (simp add: digit_char_is_digit)
    qed
  qed
qed

lemma str_int_digits: "0 \<le> i \<Longrightarrow> c \<in> set (str_int i) \<Longrightarrow> is_digit c"
  using str_nat_digits [of c "nat i"] by (simp add: str_int_def)

lemma zfill_keeps: "c \<in> set s \<Longrightarrow> c \<in> set (zfill width s)"
  by (cases s) (auto simp: zfill_def)

lemma unknown_kind_loses:
  "k \<notin> set [''Royal Single'', ''Golden Jodi'', ''Triple Crown'', ''Double Fortune'', ''Royal Flush'']
     \<Longrightarrow> \<not> check_win k g d1 s1 d2 s2"
  by (simp add: check_win_def check_win_body_def)

lemma royal_single_eval:
  "check_win ''Royal Single'' g d1 s1 d2 s2 =
     (case py_int g of Inl e \<Rightarrow> False | Inr n \<Rightarrow> n = s1 \<or> n = s2)"
  by (simp add: check_win_def check_win_body_def split: sum.splits)

lemma pattern_rejects:
  assumes "c \<in> set (py_str g)" and "\<not> is_digit c"
  shows "\<not> check_win ''Triple Crown'' g d1 s1 d2 s2"
    and "\<not> check_win ''Double Fortune'' g d1 s1 d2 s2"
    and "\<not> check_win ''Royal Flush'' g d1 s1 d2 s2"
proof -
  from assms(1) have "c \<in> set (zfill 3 (py_str g))" by (rule zfill_keeps)
  with assms(2) have "int_digits (zfill 3 (py_str g)) = Inl ValueError"
    by (auto simp: int_digits_eq)
  then show "\<not> check_win ''Triple Crown'' g d1 s1 d2 s2"
    and "\<not> check_win ''Double Fortune'' g d1 s1 d2 s2"
    and "\<not> check_win ''Royal Flush'' g d1 s1 d2 s2"
    by (simp_all add: triple_crown_eval double_fortune_eval royal_flush_eval)
qed

lemma golden_jodi_rejects:
  assumes "c \<in> set (py_str g)" and "\<not> is_digit c" and "0 \<le> s1" and "0 \<le> s2"
  shows "\<not> check_win ''Golden Jodi'' g d1 s1 d2 s2"
proof
  assume "check_win ''Golden Jodi'' g d1 s1 d2 s2"
  then have e: "zfill 2 (py_str g) = str_int s1 @ str_int s2" by (simp add: golden_jodi_eval)
  from assms(1) have "c \<in> set (zfill 2 (py_str g))" by (rule zfill_keeps)
  with e have "c \<in> set (str_int s1) \<or> c \<in> set (str_int s2)" by simp
  with assms(3,4) have "is_digit c" using str_int_digits by blast
  with assms(2) show False by simp
qed

lemma int_of_str_space_5: "int_of_str '' 5'' = Inr 5"
  by (simp add: int_of_str_def strip_def is_space_def is_digit_def digit_val_def)

section \<open>The claims\<close>

text \<open>
  C1. For each of the three pattern kinds (Triple Crown, Double Fortune, Royal Flush), every
  guess of three decimal digits and every pair of feeds, \<^verbatim>\<open>check_win\<close> returns true
  exactly when the digits of the guess have the shape of the kind (three distinct values;
  two distinct values, one of them occurring twice; one distinct value) and the sorted
  guess equals the sorted first feed, which has that shape too, or the same holds for the
  second feed.
\<close>

theorem check_win_pattern_iff:
  assumes "length s = 3" and "\<forall>c\<in>set s. is_digit c"
  shows
    "(check_win ''Triple Crown'' (PStr s) d1 s1 d2 s2 \<longleftrightarrow>
        card (set (digit_values s)) = 3 \<and>
        (sort (digit_values s) = sort d1 \<and> card (set d1) = 3 \<or>
         sort (digit_values s) = sort d2 \<and> card (set d2) = 3)) \<and>
     (check_win ''Double Fortune'' (PStr s) d1 s1 d2 s2 \<longleftrightarrow>
        (card (set (digit_values s)) = 2 \<and>
         (\<exists>k\<in>set (digit_values s). count_list (digit_values s) k = 2)) \<and>
        (sort (digit_values s) = sort d1 \<and>
           card (set d1) = 2 \<and> (\<exists>k\<in>set d1. count_list d1 k = 2) \<or>
         sort (digit_values s) = sort d2 \<and>
           card (set d2) = 2 \<and> (\<exists>k\<in>set d2. count_list d2 k = 2))) \<and>
     (check_win ''Royal Flush'' (PStr s) d1 s1 d2 s2 \<longleftrightarrow>
        card (set (digit_values s)) = 1 \<and>
        (sort (digit_values s) = sort d1 \<and> card (set d1) = 1 \<or>
         sort (digit_values s) = sort d2 \<and> card (set d2) = 1))"
proof -
  have z: "zfill 3 (py_str (PStr s)) = s"
    using assms(1) by (simp add: zfill_long)
  have d: "int_digits s = Inr (digit_values s)"
    using assms(2) by (simp add: int_digits_eq)
  show ?thesis
    unfolding triple_crown_eval double_fortune_eval royal_flush_eval z d by simp
qed

theorem check_win_pattern_iff_witness:
  "length ''112'' = 3 \<and> list_all is_digit ''112'' \<and>
   check_win ''Double Fortune'' (PStr ''112'') [2, 1, 1] 4 [3, 6, 9] 8"
proof -
  have l: "length ''112'' = 3" by simp
  have c: "\<forall>c\<in>set ''112''. is_digit c" by (simp add: is_digit_def)
  have v: "digit_values ''112'' = [1, 1, 2]" by (simp add: digit_values_def digit_val_def)
  have k: "\<exists>k\<in>set [1, 1, 2::int]. count_list [1, 1, 2::int] k = 2" by simp
  have k': "\<exists>k\<in>set [2, 1, 1::int]. count_list [2, 1, 1::int] k = 2" by simp
  have "check_win ''Double Fortune'' (PStr ''112'') [2, 1, 1] 4 [3, 6, 9] 8"
    using check_win_pattern_iff [OF l c, of "[2, 1, 1]" 4 "[3, 6, 9]" 8] k k'
    unfolding v by simp
  with l c show ?thesis by (simp add: list_all_iff)
qed

text \<open>
  C7. For the three pattern kinds the check of the matched feed's shape is redundant: for
  every guess and every pair of feeds, \<^verbatim>\<open>check_win\<close> as implemented returns the same
  boolean as the simplified variant, which checks only the shape of the guess and that
  the sorted guess equals a sorted feed.
\<close>

theorem feed_shape_check_redundant:
  "check_win ''Triple Crown'' g d1 s1 d2 s2 = check_win_simplified ''Triple Crown'' g d1 d2 \<and>
   check_win ''Double Fortune'' g d1 s1 d2 s2 = check_win_simplified ''Double Fortune'' g d1 d2 \<and>
   check_win ''Royal Flush'' g d1 s1 d2 s2 = check_win_simplified ''Royal Flush'' g d1 d2"
proof (cases "int_digits (zfill 3 (py_str g))")
  case (Inl e)
  then show ?thesis
    by (simp add: triple_crown_eval double_fortune_eval royal_flush_eval simplified_eval)
next
  case (Inr ds)
  have t: "check_win ''Triple Crown'' g d1 s1 d2 s2 = check_win_simplified ''Triple Crown'' g d1 d2"
    unfolding triple_crown_eval simplified_eval Inr
    using sort_eq_shape(1) [of ds d1] sort_eq_shape(1) [of ds d2] by auto
  have d: "check_win ''Double Fortune'' g d1 s1 d2 s2 = check_win_simplified ''Double Fortune'' g d1 d2"
    unfolding double_fortune_eval simplified_eval Inr
    using sort_eq_shape [of ds d1] sort_eq_shape [of ds d2] by auto
  have r: "check_win ''Royal Flush'' g d1 s1 d2 s2 = check_win_simplified ''Royal Flush'' g d1 d2"
    unfolding royal_flush_eval simplified_eval Inr
    using sort_eq_shape(1) [of ds d1] sort_eq_shape(1) [of ds d2] by auto
  from t d r show ?thesis by simp
qed

text \<open>
  C9. For Royal Single (the signal digit) with an integer guess, \<^verbatim>\<open>check_win\<close> returns
  true exactly when the guess equals the first or the second signal. The feeds
  \<open>[2, 5, 8]\<close> and \<open>[1, 1, 1]\<close> have the signals 5 and 3, and the guess 5 wins there.
\<close>

theorem royal_single_iff:
  "(check_win ''Royal Single'' (PInt n) d1 s1 d2 s2 \<longleftrightarrow> n = s1 \<or> n = s2) \<and>
   generate_draw [2, 5, 8] [1, 1, 1] = ([2, 5, 8], 5, [1, 1, 1], 3) \<and>
   check_win ''Royal Single'' (PInt 5) [2, 5, 8] 5 [1, 1, 1] 3"
  by (simp add: check_win_def check_win_body_def generate_draw_def)

text \<open>
  C6. For Golden Jodi (the combined signal), \<^verbatim>\<open>check_win\<close> returns true exactly when the
  guess, padded to two characters, equals the decimal string of the first signal followed
  by that of the second. The guess \<open>07\<close> wins exactly when the signals are 0 and 7; with
  the signals 3 and 4, whose sum is 7, it loses.
\<close>

theorem golden_jodi_iff:
  "(check_win ''Golden Jodi'' g d1 s1 d2 s2 \<longleftrightarrow>
      zfill 2 (py_str g) = str_int s1 @ str_int s2) \<and>
   (check_win ''Golden Jodi'' (PStr ''07'') d1 s1 d2 s2 \<longleftrightarrow> s1 = 0 \<and> s2 = 7) \<and>
   \<not> check_win ''Golden Jodi'' (PStr ''07'') [1, 1, 1] 3 [2, 1, 1] 4"
proof -
  have z: "zfill 2 (py_str (PStr ''07'')) = ''07''" by (simp add: zfill_def)
  have a: "check_win ''Golden Jodi'' (PStr ''07'') d1 s1 d2 s2 \<longleftrightarrow> s1 = 0 \<and> s2 = 7"
    for d1 s1 d2 s2
    unfolding golden_jodi_eval z using jodi_07 [of s1 s2] by auto
  show ?thesis using a [of d1 s1 d2 s2] a [of "[1, 1, 1]" 3 "[2, 1, 1]" 4]
    by (simp add: golden_jodi_eval)
qed

text \<open>
  C10. \<^verbatim>\<open>check_win\<close> pads a short guess instead of rejecting it: a Golden Jodi guess
  \<open>g\<close> is evaluated as \<^verbatim>\<open>str(g).zfill(2)\<close> and a pattern guess as
  \<^verbatim>\<open>str(g).zfill(3)\<close>; on a string of digits the padding puts zeros on the left. The
  guess \<open>7\<close> wins under Golden Jodi exactly when \<open>07\<close> does, and the integer guess 12 is
  evaluated as \<open>012\<close> under the pattern kinds.
\<close>

theorem check_win_pads_guess:
  "check_win ''Golden Jodi'' g d1 s1 d2 s2 =
     check_win ''Golden Jodi'' (PStr (zfill 2 (py_str g))) d1 s1 d2 s2 \<and>
   check_win ''Triple Crown'' g d1 s1 d2 s2 =
     check_win ''Triple Crown'' (PStr (zfill 3 (py_str g))) d1 s1 d2 s2 \<and>
   check_win ''Double Fortune'' g d1 s1 d2 s2 =
     check_win ''Double Fortune'' (PStr (zfill 3 (py_str g))) d1 s1 d2 s2 \<and>
   check_win ''Royal Flush'' g d1 s1 d2 s2 =
     check_win ''Royal Flush'' (PStr (zfill 3 (py_str g))) d1 s1 d2 s2 \<and>
   (list_all is_digit s \<longrightarrow> zfill n s = replicate (n - length s) CHR ''0'' @ s) \<and>
   zfill 2 ''7'' = ''07'' \<and>
   check_win ''Golden Jodi'' (PStr ''7'') d1 s1 d2 s2 =
     check_win ''Golden Jodi'' (PStr ''07'') d1 s1 d2 s2 \<and>
   zfill 3 (py_str (PInt 12)) = ''012'' \<and>
   check_win ''Triple Crown'' (PInt 12) d1 s1 d2 s2 =
     check_win ''Triple Crown'' (PStr ''012'') d1 s1 d2 s2 \<and>
   check_win ''Double Fortune'' (PInt 12) d1 s1 d2 s2 =
     check_win ''Double Fortune'' (PStr ''012'') d1 s1 d2 s2 \<and>
   check_win ''Royal Flush'' (PInt 12) d1 s1 d2 s2 =
     check_win ''Royal Flush'' (PStr ''012'') d1 s1 d2 s2"
proof -
  have j: "check_win ''Golden Jodi'' g d1 s1 d2 s2 =
      check_win ''Golden Jodi'' (PStr (zfill 2 (py_str g))) d1 s1 d2 s2" for g
    by (simp add: golden_jodi_eval zfill_idem)
  have p: "list_all is_digit s \<longrightarrow> zfill n s = replicate (n - length s) CHR ''0'' @ s"
  proof
    assume d: "list_all is_digit s"
    have "s = [] \<or> (hd s \<noteq> CHR ''+'' \<and> hd s \<noteq> CHR ''-'')"
    proof (cases s)
      case Nil
      then show ?thesis by simp
    next
      case (Cons c r)
      with d have "is_digit c" by simp
      then have "c \<noteq> CHR ''+'' \<and> c \<noteq> CHR ''-''" using sign_not_digit by blast
      with Cons show ?thesis by simp
    qed
    then show "zfill n s = replicate (n - length s) CHR ''0'' @ s" by (rule zfill_plain)
  qed
  have z7: "zfill 2 ''7'' = ''07''" by (simp add: zfill_def)
  have z12: "zfill 3 (py_str (PInt 12)) = ''012''" by (simp add: str_int_12 zfill_def)
  have e7: "check_win ''Golden Jodi'' (PStr ''7'') d1 s1 d2 s2 =
      check_win ''Golden Jodi'' (PStr ''07'') d1 s1 d2 s2"
    using j [of "PStr ''7''"] z7 by simp
  have e12:
    "check_win ''Triple Crown'' (PInt 12) d1 s1 d2 s2 =
       check_win ''Triple Crown'' (PStr ''012'') d1 s1 d2 s2"
    "check_win ''Double Fortune'' (PInt 12) d1 s1 d2 s2 =
       check_win ''Double Fortune'' (PStr ''012'') d1 s1 d2 s2"
    "check_win ''Royal Flush'' (PInt 12) d1 s1 d2 s2 =
       check_win ''Royal Flush'' (PStr ''012'') d1 s1 d2 s2"
    using pattern_zfill [of "PInt 12" d1 s1 d2 s2] unfolding z12 by simp_all
  from j [of g] pattern_zfill [of g d1 s1 d2 s2] p z7 z12 e7 e12 show ?thesis
    by blast
qed

theorem check_win_pads_guess_witness:
  "list_all is_digit ''7'' \<and> zfill 2 ''7'' = replicate (2 - length ''7'') CHR ''0'' @ ''7'' \<and>
   check_win ''Golden Jodi'' (PStr ''7'') [0, 0, 0] 0 [1, 2, 4] 7"
proof -
  have d: "list_all is_digit ''7''" by (simp add: is_digit_def)
  from check_win_pads_guess [of "PStr ''7''" "[0, 0, 0]" 0 "[1, 2, 4]" 7 "''7''" 2] d
  have z: "zfill 2 ''7'' = replicate (2 - length ''7'') CHR ''0'' @ ''7''"
    and w: "check_win ''Golden Jodi'' (PStr ''7'') [0, 0, 0] 0 [1, 2, 4] 7 =
            check_win ''Golden Jodi'' (PStr ''07'') [0, 0, 0] 0 [1, 2, 4] 7"
    by blast+
  have "check_win ''Golden Jodi'' (PStr ''07'') [0, 0, 0] 0 [1, 2, 4] 7"
    using jodi_07 [of 0 7] by (simp add: golden_jodi_eval zfill_def)
  with d z w show ?thesis by simp
qed

text \<open>
  C2. A bet below 10, above 5000 or above the balance is rejected with a validation error
  and the session is returned as it was, every field of it. Hence a freshly reset session
  is still the freshly reset session after any sequence of such rejected bets, and every
  one of them is reported as an error.
\<close>

theorem rejected_bet_keeps_session:
  "(bet < 10 \<or> 5000 < bet \<or> v4_balance s < bet \<longrightarrow>
      predict k uc bet d1 d2 roll now s =
        (Inl (case uc of None \<Rightarrow> InvalidPrediction
              | Some c \<Rightarrow> if bet < 10 \<or> 5000 < bet then BetOutOfRange else InsufficientBalance),
         s)) \<and>
   ((\<forall>r\<in>set rs. r_bet r < 10 \<or> 5000 < r_bet r \<or> v4_balance (reset_simulation s0) < r_bet r) \<longrightarrow>
      snd (predict_all rs (reset_simulation s0)) = reset_simulation s0 \<and>
      list_all isl (fst (predict_all rs (reset_simulation s0))))"
  using predict_rejects [of bet s k uc d1 d2 roll now] predict_all_rejects [of rs "reset_simulation s0"]
  by blast

theorem rejected_bet_keeps_session_witness:
  "predict ''Royal Single'' (Some (PInt 3)) 100 [1, 2, 3] [4, 5, 6] 0 ''12:00''
       (initial_session\<lparr>v4_balance := 50\<rparr>) =
     (Inl InsufficientBalance, initial_session\<lparr>v4_balance := 50\<rparr>) \<and>
   snd (predict_all
          [\<lparr>r_game_type = ''Royal Single'', r_choice = Some (PInt 3), r_bet = 5,
             r_digits1 = [1, 2, 3], r_digits2 = [4, 5, 6], r_roll = 0, r_now = ''12:00''\<rparr>,
           \<lparr>r_game_type = ''Royal Flush'', r_choice = Some (PStr ''777''), r_bet = 6000,
             r_digits1 = [7, 7, 7], r_digits2 = [4, 5, 6], r_roll = 0, r_now = ''12:05''\<rparr>]
          (reset_simulation initial_session)) = initial_session"
  using rejected_bet_keeps_session [of 100 "initial_session\<lparr>v4_balance := 50\<rparr>"
      "''Royal Single''" "Some (PInt 3)" "[1, 2, 3]" "[4, 5, 6]" 0 "''12:00''"
      "[\<lparr>r_game_type = ''Royal Single'', r_choice = Some (PInt 3), r_bet = 5,
             r_digits1 = [1, 2, 3], r_digits2 = [4, 5, 6], r_roll = 0, r_now = ''12:00''\<rparr>,
           \<lparr>r_game_type = ''Royal Flush'', r_choice = Some (PStr ''777''), r_bet = 6000,
             r_digits1 = [7, 7, 7], r_digits2 = [4, 5, 6], r_roll = 0, r_now = ''12:05''\<rparr>]"
      initial_session]
  by (simp add: reset_simulation_def initial_session_def)

text \<open>
  C3. In a resolved round that is won without a jackpot payout, the streak bonus is the bet
  times the rate of the highest threshold of 3 (10 percent), 5 (20 percent) and 10
  (50 percent) that the streak reaches, counting this win; it is paid on top of the base
  winnings. A bet of 1000 at streak 5 gives a bonus of 200. When the jackpot is paid no
  streak bonus is paid in that round.
\<close>

theorem streak_bonus_round:
  assumes "predict k uc bet d1 d2 roll now s = (Inr out, s')"
  shows "(o_won out \<and> \<not> o_jackpot_win out \<longrightarrow>
            o_bonus out =
              bet * (if 10 \<le> v4_streak s + 1 then 50 / 100
                     else if 5 \<le> v4_streak s + 1 then 20 / 100
                     else if 3 \<le> v4_streak s + 1 then 10 / 100 else 0) \<and>
            v4_streak s' = v4_streak s + 1 \<and>
            v4_balance s' = v4_balance s - bet + bet * get_payout_multiplier k + o_bonus out) \<and>
         (o_jackpot_win out \<longrightarrow>
            o_bonus out = 0 \<and>
            v4_balance s' =
              v4_balance s - bet + bet * get_payout_multiplier k + o_jackpot_win_amount out) \<and>
         1000 * get_streak_bonus_multiplier 5 = 200"
proof -
  from predict_resolved [OF assms] obtain c where
    o: "out = fst (resolve_round k c bet d1 d2 roll now s)" and
    s: "s' = snd (resolve_round k c bet d1 d2 roll now s)" by blast
  have e: "1000 * get_streak_bonus_multiplier 5 = 200"
    by (simp add: get_streak_bonus_multiplier_eq)
  have m: "o_won out \<and> \<not> o_jackpot_win out \<longrightarrow>
            o_bonus out =
              bet * (if 10 \<le> v4_streak s + 1 then 50 / 100
                     else if 5 \<le> v4_streak s + 1 then 20 / 100
                     else if 3 \<le> v4_streak s + 1 then 10 / 100 else 0) \<and>
            v4_streak s' = v4_streak s + 1 \<and>
            v4_balance s' = v4_balance s - bet + bet * get_payout_multiplier k + o_bonus out"
    unfolding o s resolve_round_fields get_streak_bonus_multiplier_eq by auto
  have j: "o_jackpot_win out \<longrightarrow>
            o_bonus out = 0 \<and>
            v4_balance s' =
              v4_balance s - bet + bet * get_payout_multiplier k + o_jackpot_win_amount out"
    unfolding o s resolve_round_fields by auto
  from m j e show ?thesis by blast
qed

theorem streak_bonus_round_witness:
  "o_bonus (projr (fst (predict ''Royal Single'' (Some (PInt 5)) 1000 [2, 5, 8] [1, 1, 1]
                      (1 / 2) ''12:00'' (initial_session\<lparr>v4_streak := 4\<rparr>)))) = 200 \<and>
   v4_streak (snd (predict ''Royal Single'' (Some (PInt 5)) 1000 [2, 5, 8] [1, 1, 1]
                      (1 / 2) ''12:00'' (initial_session\<lparr>v4_streak := 4\<rparr>))) = 5"
proof -
  have b: "(10::real) \<le> 1000" "(1000::real) \<le> 5000"
      "1000 \<le> v4_balance (initial_session\<lparr>v4_streak := 4\<rparr>)"
    by (simp_all add: initial_session_def)
  note p = predict_valid [OF b, of "''Royal Single''" "PInt 5" "[2, 5, 8]" "[1, 1, 1]"
      "1 / 2" "''12:00''"]
  have w: "check_win ''Royal Single'' (PInt 5) [2, 5, 8] (sum_list [2, 5, 8] mod 10) [1, 1, 1]
      (sum_list [1, 1, 1] mod 10)"
    by (simp add: check_win_def check_win_body_def)
  have j: "o_won (fst (resolve_round ''Royal Single'' (PInt 5) 1000 [2, 5, 8] [1, 1, 1]
      (1 / 2) ''12:00'' (initial_session\<lparr>v4_streak := 4\<rparr>))) \<and>
    \<not> o_jackpot_win (fst (resolve_round ''Royal Single'' (PInt 5) 1000 [2, 5, 8] [1, 1, 1]
      (1 / 2) ''12:00'' (initial_session\<lparr>v4_streak := 4\<rparr>)))"
    unfolding resolve_round_fields using w by simp
  from streak_bonus_round [OF p] j show ?thesis
    unfolding p by (simp add: initial_session_def)
qed

text \<open>
  C4. In every resolved round the bet adds one hundredth of its amount to the jackpot, once,
  whether the round is won or lost and before the payout is decided: without a jackpot
  payout the jackpot after the round is the jackpot before plus that contribution, so it
  has not decreased; with a jackpot payout the amount paid includes the contribution and
  the jackpot after the round is exactly 5000.
\<close>

theorem jackpot_round:
  assumes "predict k uc bet d1 d2 roll now s = (Inr out, s')"
  shows "(if o_jackpot_win out
          then v4_jackpot s' = 5000 \<and> o_jackpot_win_amount out = v4_jackpot s + bet * (1 / 100)
          else v4_jackpot s' = v4_jackpot s + bet * (1 / 100) \<and> v4_jackpot s \<le> v4_jackpot s')"
proof -
  from predict_resolved [OF assms] obtain c where
    v: "10 \<le> bet" and
    o: "out = fst (resolve_round k c bet d1 d2 roll now s)" and
    s: "s' = snd (resolve_round k c bet d1 d2 roll now s)" by blast
  from v have "0 \<le> bet * (1 / 100)" by simp
  then show ?thesis
    unfolding o s resolve_round_fields by auto
qed

theorem jackpot_round_witness:
  "v4_jackpot (snd (predict ''Royal Flush'' (Some (PStr ''777'')) 100 [7, 7, 7] [1, 2, 3]
                      (1 / 100) ''12:00'' initial_session)) = 5000 \<and>
   v4_jackpot (snd (predict ''Royal Single'' (Some (PInt 0)) 100 [7, 7, 7] [1, 2, 3]
                      (1 / 100) ''12:00'' initial_session)) = 5001"
proof -
  have b: "(10::real) \<le> 100" "(100::real) \<le> 5000" "100 \<le> v4_balance initial_session"
    by (simp_all add: initial_session_def)
  note p = predict_valid [OF b, of "''Royal Flush''" "PStr ''777''" "[7, 7, 7]" "[1, 2, 3]"
      "1 / 100" "''12:00''"]
  note q = predict_valid [OF b, of "''Royal Single''" "PInt 0" "[7, 7, 7]" "[1, 2, 3]"
      "1 / 100" "''12:00''"]
  have j: "o_jackpot_win (fst (resolve_round ''Royal Flush'' (PStr ''777'') 100 [7, 7, 7] [1, 2, 3]
      (1 / 100) ''12:00'' initial_session))"
    unfolding resolve_round_fields using flush_777 by simp
  have n: "\<not> o_jackpot_win (fst (resolve_round ''Royal Single'' (PInt 0) 100 [7, 7, 7] [1, 2, 3]
      (1 / 100) ''12:00'' initial_session))"
    unfolding resolve_round_fields by simp
  from jackpot_round [OF p] j jackpot_round [OF q] n show ?thesis
    unfolding p q by (simp add: initial_session_def)
qed

text \<open>
  C5. The jackpot is paid exactly when the round is a won Royal Flush and the random roll
  is below the chance 0.05. It is then credited in full, with this round's contribution,
  on top of the base winnings of 500 times the bet, and the jackpot is reset to 5000. No
  other kind and no lost round pays it.
\<close>

theorem jackpot_only_on_flush:
  assumes "predict k uc bet d1 d2 roll now s = (Inr out, s')"
  shows "(o_jackpot_win out \<longleftrightarrow>
            k = ''Royal Flush'' \<and> o_won out \<and> roll < JACKPOT_WIN_CHANCE_ON_FLUSH) \<and>
         JACKPOT_WIN_CHANCE_ON_FLUSH = 5 / 100 \<and>
         (o_jackpot_win out \<longrightarrow>
            o_jackpot_win_amount out = v4_jackpot s + bet * (1 / 100) \<and>
            v4_balance s' = v4_balance s - bet + bet * 500 + (v4_jackpot s + bet * (1 / 100)) \<and>
            v4_jackpot s' = 5000) \<and>
         (\<not> o_jackpot_win out \<longrightarrow>
            o_jackpot_win_amount out = 0 \<and>
            v4_balance s' = v4_balance s - bet + o_winnings out + o_bonus out)"
proof -
  from predict_resolved [OF assms] obtain c where
    o: "out = fst (resolve_round k c bet d1 d2 roll now s)" and
    s: "s' = snd (resolve_round k c bet d1 d2 roll now s)" by blast
  show ?thesis
    unfolding o s resolve_round_fields JACKPOT_WIN_CHANCE_ON_FLUSH_def
    by (auto simp: payout_royal_flush)
qed

theorem jackpot_only_on_flush_witness:
  "v4_balance (snd (predict ''Royal Flush'' (Some (PStr ''777'')) 100 [7, 7, 7] [1, 2, 3]
                      (1 / 100) ''12:00'' initial_session)) = 10000 - 100 + 100 * 500 + 5001"
proof -
  have b: "(10::real) \<le> 100" "(100::real) \<le> 5000" "100 \<le> v4_balance initial_session"
    by (simp_all add: initial_session_def)
  note p = predict_valid [OF b, of "''Royal Flush''" "PStr ''777''" "[7, 7, 7]" "[1, 2, 3]"
      "1 / 100" "''12:00''"]
  have j: "o_jackpot_win (fst (resolve_round ''Royal Flush'' (PStr ''777'') 100 [7, 7, 7] [1, 2, 3]
      (1 / 100) ''12:00'' initial_session))"
    unfolding resolve_round_fields using flush_777 by simp
  from jackpot_only_on_flush [OF p] j show ?thesis
    unfolding p by (simp add: initial_session_def)
qed

text \<open>
  C8, as amended. \<^verbatim>\<open>check_win\<close> never raises: it returns true exactly when its body
  returns true, and false when the body raises. An unrecognised kind loses. A guess that
  the conversion rejects loses: under Royal Single a guess on which \<^verbatim>\<open>int\<close> raises, such
  as \<^verbatim>\<open>None\<close> or a string with a character that is neither a digit, nor white space, nor
  a sign, nor an underscore; under the pattern kinds a guess whose string has a character
  that is not a digit; under Golden Jodi, for signals that are not negative, a guess whose
  string has a character that is not a digit.
\<close>

theorem check_win_never_raises:
  "(check_win k g d1 s1 d2 s2 \<longleftrightarrow> check_win_body k g d1 s1 d2 s2 = Inr True) \<and>
   (k \<notin> set [''Royal Single'', ''Golden Jodi'', ''Triple Crown'', ''Double Fortune'', ''Royal Flush'']
      \<longrightarrow> \<not> check_win k g d1 s1 d2 s2) \<and>
   (py_int g = Inl e \<longrightarrow> \<not> check_win ''Royal Single'' g d1 s1 d2 s2) \<and>
   \<not> check_win ''Royal Single'' PNone d1 s1 d2 s2 \<and>
   ((\<exists>c\<in>set s. \<not> is_digit c \<and> \<not> is_space c \<and> c \<notin> set ''+-_'')
      \<longrightarrow> \<not> check_win ''Royal Single'' (PStr s) d1 s1 d2 s2) \<and>
   ((\<exists>c\<in>set (py_str g). \<not> is_digit c)
      \<longrightarrow> \<not> check_win ''Triple Crown'' g d1 s1 d2 s2 \<and>
          \<not> check_win ''Double Fortune'' g d1 s1 d2 s2 \<and>
          \<not> check_win ''Royal Flush'' g d1 s1 d2 s2) \<and>
   ((\<exists>c\<in>set (py_str g). \<not> is_digit c) \<and> 0 \<le> s1 \<and> 0 \<le> s2
      \<longrightarrow> \<not> check_win ''Golden Jodi'' g d1 s1 d2 s2)"
proof -
  have a: "check_win k g d1 s1 d2 s2 \<longleftrightarrow> check_win_body k g d1 s1 d2 s2 = Inr True"
    by (simp add: check_win_def split: sum.splits)
  have b: "k \<notin> set [''Royal Single'', ''Golden Jodi'', ''Triple Crown'', ''Double Fortune'',
        ''Royal Flush''] \<longrightarrow> \<not> check_win k g d1 s1 d2 s2"
    using unknown_kind_loses [of k g d1 s1 d2 s2] by blast
  have c: "py_int g = Inl e \<longrightarrow> \<not> check_win ''Royal Single'' g d1 s1 d2 s2"
    by (simp add: royal_single_eval)
  have d: "\<not> check_win ''Royal Single'' PNone d1 s1 d2 s2"
    by (simp add: royal_single_eval)
  have e: "(\<exists>c\<in>set s. \<not> is_digit c \<and> \<not> is_space c \<and> c \<notin> set ''+-_'')
      \<longrightarrow> \<not> check_win ''Royal Single'' (PStr s) d1 s1 d2 s2"
  proof
    assume "\<exists>c\<in>set s. \<not> is_digit c \<and> \<not> is_space c \<and> c \<notin> set ''+-_''"
    then obtain c where "c \<in> set s" "\<not> is_digit c" "\<not> is_space c"
      "c \<noteq> CHR ''+''" "c \<noteq> CHR ''-''" "c \<noteq> CHR ''_''" by auto
    then have "int_of_str s = Inl ValueError" by (rule int_of_str_rejects)
    then show "\<not> check_win ''Royal Single'' (PStr s) d1 s1 d2 s2"
      by (simp add: royal_single_eval)
  qed
  have f: "(\<exists>c\<in>set (py_str g). \<not> is_digit c)
      \<longrightarrow> \<not> check_win ''Triple Crown'' g d1 s1 d2 s2 \<and>
          \<not> check_win ''Double Fortune'' g d1 s1 d2 s2 \<and>
          \<not> check_win ''Royal Flush'' g d1 s1 d2 s2"
    using pattern_rejects [of _ g d1 s1 d2 s2] by blast
  have h: "(\<exists>c\<in>set (py_str g). \<not> is_digit c) \<and> 0 \<le> s1 \<and> 0 \<le> s2
      \<longrightarrow> \<not> check_win ''Golden Jodi'' g d1 s1 d2 s2"
    using golden_jodi_rejects [of _ g s1 s2 d1 d2] by blast
  from a b c d e f h show ?thesis by blast
qed

theorem check_win_never_raises_witness:
  "\<not> check_win ''Lucky Seven'' (PStr ''12x'') [1, 2, 3] 6 [4, 5, 6] 5 \<and>
   \<not> check_win ''Royal Single'' (PStr ''6x'') [1, 2, 3] 6 [4, 5, 6] 5 \<and>
   \<not> check_win ''Triple Crown'' (PStr ''12x'') [1, 2, 3] 6 [4, 5, 6] 5 \<and>
   \<not> check_win ''Golden Jodi'' (PStr ''6x'') [1, 2, 3] 6 [4, 5, 6] 5"
proof -
  have x: "\<not> is_digit CHR ''x''" "\<not> is_space CHR ''x''"
    by (simp_all add: is_digit_def is_space_def)
  have p: "py_int (PStr ''6x'') = Inl ValueError"
    using int_of_str_rejects [of "CHR ''x''" "''6x''"] x by simp
  have k: "''Lucky Seven'' \<notin> set [''Royal Single'', ''Golden Jodi'', ''Triple Crown'',
      ''Double Fortune'', ''Royal Flush'']" by simp
  have n: "(0::int) \<le> 6" "(0::int) \<le> 5" by simp_all
  have s12: "\<exists>c\<in>set (py_str (PStr ''12x'')). \<not> is_digit c" using x by simp
  have s6: "\<exists>c\<in>set (py_str (PStr ''6x'')). \<not> is_digit c" using x by simp
  have s6': "\<exists>c\<in>set ''6x''. \<not> is_digit c \<and> \<not> is_space c \<and> c \<notin> set ''+-_''" using x by simp
  from check_win_never_raises [of "''Lucky Seven''" "PStr ''12x''" "[1, 2, 3]" 6 "[4, 5, 6]" 5
      ValueError "''6x''"] k
  have 1: "\<not> check_win ''Lucky Seven'' (PStr ''12x'') [1, 2, 3] 6 [4, 5, 6] 5" by blast
  from check_win_never_raises [of "''Royal Single''" "PStr ''6x''" "[1, 2, 3]" 6 "[4, 5, 6]" 5
      ValueError "''6x''"] p s6' s6 n
  have 2: "\<not> check_win ''Royal Single'' (PStr ''6x'') [1, 2, 3] 6 [4, 5, 6] 5"
    and 4: "\<not> check_win ''Golden Jodi'' (PStr ''6x'') [1, 2, 3] 6 [4, 5, 6] 5" by blast+
  from check_win_never_raises [of "''Triple Crown''" "PStr ''12x''" "[1, 2, 3]" 6 "[4, 5, 6]" 5
      ValueError "''6x''"] s12
  have 3: "\<not> check_win ''Triple Crown'' (PStr ''12x'') [1, 2, 3] 6 [4, 5, 6] 5" by blast
  from 1 2 3 4 show ?thesis by blast
qed

text \<open>
  C8, as stated, fails: under Royal Single the guess \<open>'' 5''\<close>, a string with a character
  that is not a digit, is accepted by \<^verbatim>\<open>int\<close> as 5 and wins against the signal 5.
\<close>

theorem royal_single_accepts_space_digit:
  "(\<exists>c\<in>set '' 5''. \<not> is_digit c) \<and>
   check_win ''Royal Single'' (PStr '' 5'') [2, 5, 8] 5 [1, 1, 1] 3"
  by (simp add: royal_single_eval int_of_str_space_5 is_digit_def)

end
